theory Spec2Isabelle
  imports Main "HOL-Library.Sublist" "HOL-Library.AList" "HOL-Library.Multiset"
begin

section \<open>Python string primitives used by the scripts\<close>

text \<open>
  Python \<^verbatim>\<open>str\<close> values are modelled as \<^typ>\<open>string\<close>. All the texts the
  scripts search for are ASCII, so positions count characters as the source does.
\<close>

definition tab :: char where "tab = CHR 0x09"
definition nl :: char where "nl = CHR 0x0A"

text \<open>\<^verbatim>\<open>s.find(sub)\<close>: the lowest index at which \<^verbatim>\<open>sub\<close> starts, or \<^verbatim>\<open>-1\<close>.\<close>

definition next_index :: "int \<Rightarrow> int" where
  "next_index r = (if r = -1 then -1 else r + 1)"

fun str_find :: "string \<Rightarrow> string \<Rightarrow> int" where
  "str_find [] sub = (if sub = [] then 0 else -1)"
| "str_find (c # cs) sub =
     (if prefix sub (c # cs) then 0 else next_index (str_find cs sub))"

text \<open>\<^verbatim>\<open>s.find(sub, start)\<close>: a negative \<^verbatim>\<open>start\<close> counts from the end of the
  text, as Python's slice indices do; the result is an index of the whole text.\<close>

definition str_find_from :: "string \<Rightarrow> string \<Rightarrow> int \<Rightarrow> int" where
  "str_find_from s sub start =
     (let st = (if start < 0 then max 0 (int (length s) + start) else start)
      in if int (length s) < st then -1
         else let r = str_find (drop (nat st) s) sub in if r = -1 then -1 else st + r)"

text \<open>\<^verbatim>\<open>sub in s\<close>.\<close>

fun str_in :: "string \<Rightarrow> string \<Rightarrow> bool" where
  "str_in sub [] = (sub = [])"
| "str_in sub (c # cs) = (prefix sub (c # cs) \<or> str_in sub cs)"

text \<open>\<^verbatim>\<open>s[:pos] + ins + s[pos:]\<close> for a position \<^verbatim>\<open>pos\<close> that the caller has
  checked to be different from \<^verbatim>\<open>-1\<close> (a result of \<^verbatim>\<open>find\<close>, so not negative).\<close>

definition insert_at :: "int \<Rightarrow> string \<Rightarrow> string \<Rightarrow> string" where
  "insert_at pos ins s = take (nat pos) s @ ins @ drop (nat pos) s"

text \<open>\<^verbatim>\<open>os.path.basename\<close>: what follows the last slash.\<close>

definition basename :: "string \<Rightarrow> string" where
  "basename p = rev (takeWhile (\<lambda>c. c \<noteq> CHR ''/'') (rev p))"

text \<open>\<^verbatim>\<open>str.upper\<close> on ASCII text.\<close>

definition upper_char :: "char \<Rightarrow> char" where
  "upper_char c =
     (case map_of (zip ''abcdefghijklmnopqrstuvwxyz'' ''ABCDEFGHIJKLMNOPQRSTUVWXYZ'') c of
        Some u \<Rightarrow> u
      | None \<Rightarrow> c)"

definition upper :: "string \<Rightarrow> string" where
  "upper s = map upper_char s"


section \<open>The direct text-splice inserter (add_files_to_xcode.py)\<close>

subsection \<open>Identifier allocation\<close>

text \<open>
  \<^verbatim>\<open>uuid.uuid4().hex[:24].upper()\<close>. The random source is the sequence of the
  \<^verbatim>\<open>hex\<close> strings of the UUIDs drawn during one run: \<open>rnd k\<close> is the draw number
  \<open>k\<close>. The script keeps the first 24 digits of each draw and never compares the
  result with anything.
\<close>

type_synonym random_source = "nat \<Rightarrow> string"

definition uuid_token :: "string \<Rightarrow> string" where
  "uuid_token h = upper (take 24 h)"

record file_info =
  ref_uuid :: string
  build_uuid :: string
  name :: string

text \<open>
  The loop of lines 20 to 29. \<^verbatim>\<open>file_refs\<close> is a Python dict: a key that is
  assigned again keeps its place and takes the new value, which is what
  \<^const>\<open>AList.update\<close> does on an association list. Two tokens are drawn for every
  element of \<^verbatim>\<open>files_to_add\<close>; \<open>k\<close> counts the draws made so far.
\<close>

fun file_refs_loop ::
  "string list \<Rightarrow> random_source \<Rightarrow> nat \<Rightarrow> (string \<times> file_info) list \<Rightarrow> (string \<times> file_info) list"
where
  "file_refs_loop [] rnd k file_refs = file_refs"
| "file_refs_loop (file_path # rest) rnd k file_refs =
     file_refs_loop rest rnd (k + 2)
       (AList.update file_path
          \<lparr>ref_uuid = uuid_token (rnd k),
           build_uuid = uuid_token (rnd (k + 1)),
           name = basename file_path\<rparr>
          file_refs)"

definition gen_file_refs :: "string list \<Rightarrow> random_source \<Rightarrow> (string \<times> file_info) list" where
  "gen_file_refs files_to_add rnd = file_refs_loop files_to_add rnd 0 []"

text \<open>The identifiers a run has allocated: those held by the dict after the loop.\<close>

definition allocated_ids :: "(string \<times> file_info) list \<Rightarrow> string list" where
  "allocated_ids file_refs = concat (map (\<lambda>(p, info). [ref_uuid info, build_uuid info]) file_refs)"

text \<open>The tokens of the draws \<open>k, ..., k + n - 1\<close>.\<close>

definition drawn_tokens :: "random_source \<Rightarrow> nat \<Rightarrow> nat \<Rightarrow> string list" where
  "drawn_tokens rnd k n = map (\<lambda>i. uuid_token (rnd i)) [k ..< k + n]"

subsection \<open>Entry lines and section markers\<close>

definition begin_build_file :: string where
  "begin_build_file = ''/* Begin PBXBuildFile section */''"
definition end_build_file :: string where
  "end_build_file = ''/* End PBXBuildFile section */''"
definition begin_file_reference :: string where
  "begin_file_reference = ''/* Begin PBXFileReference section */''"
definition end_file_reference :: string where
  "end_file_reference = ''/* End PBXFileReference section */''"
definition begin_sources :: string where
  "begin_sources = ''/* Begin PBXSourcesBuildPhase section */''"
definition end_sources :: string where
  "end_sources = ''/* End PBXSourcesBuildPhase section */''"
definition files_array_open :: string where
  "files_array_open = ''files = (''"
definition files_array_close :: string where
  "files_array_close = '');''"

text \<open>Line 42.\<close>

definition build_file_entry :: "file_info \<Rightarrow> string" where
  "build_file_entry info =
     [tab, tab] @ build_uuid info @ '' /* '' @ name info @ '' in Sources */ = {isa = PBXBuildFile; fileRef = ''
       @ ref_uuid info @ '' /* '' @ name info @ '' */; };'' @ [nl]"

text \<open>Line 61. The \<^verbatim>\<open>rel_path\<close> of line 60 is computed and not used.\<close>

definition file_ref_entry :: "file_info \<Rightarrow> string" where
  \<open>file_ref_entry info =
     [tab, tab] @ ref_uuid info @ '' /* '' @ name info
       @ '' */ = {isa = PBXFileReference; lastKnownFileType = sourcecode.swift; path = ''
       @ name info @ ''; sourceTree = "<group>"; };'' @ [nl]\<close>

text \<open>Line 87.\<close>

definition source_entry :: "file_info \<Rightarrow> string" where
  "source_entry info =
     [tab, tab, tab, tab] @ build_uuid info @ '' /* '' @ name info @ '' in Sources */,'' @ [nl]"

definition build_file_entries :: "(string \<times> file_info) list \<Rightarrow> string" where
  "build_file_entries file_refs = concat (map (\<lambda>(file_path, info). build_file_entry info) file_refs)"

definition file_ref_entries :: "(string \<times> file_info) list \<Rightarrow> string" where
  "file_ref_entries file_refs = concat (map (\<lambda>(file_path, info). file_ref_entry info) file_refs)"

definition source_entries :: "(string \<times> file_info) list \<Rightarrow> string" where
  "source_entries file_refs = concat (map (\<lambda>(file_path, info). source_entry info) file_refs)"

subsection \<open>The three splices\<close>

text \<open>Lines 31 to 47: \<open>None\<close> is the \<^verbatim>\<open>return False\<close> of line 37.\<close>

definition build_file_stage :: "string \<Rightarrow> (string \<times> file_info) list \<Rightarrow> string option" where
  "build_file_stage content file_refs =
     (let build_file_section_start = str_find content begin_build_file;
          build_file_section_end = str_find content end_build_file
      in if build_file_section_start = -1 \<or> build_file_section_end = -1 then None
         else Some (insert_at build_file_section_end (build_file_entries file_refs) content))"

text \<open>Lines 49 to 66, on the text that already holds the build file entries.\<close>

definition file_ref_stage :: "string \<Rightarrow> (string \<times> file_info) list \<Rightarrow> string option" where
  "file_ref_stage content file_refs =
     (let file_ref_section_start = str_find content begin_file_reference;
          file_ref_section_end = str_find content end_file_reference
      in if file_ref_section_start = -1 \<or> file_ref_section_end = -1 then None
         else Some (insert_at file_ref_section_end (file_ref_entries file_refs) content))"

text \<open>Lines 68 to 92. The files array is searched from the begin marker on, with no
  upper bound, and its end is the first \<^verbatim>\<open>);\<close> from there.\<close>

definition sources_stage :: "string \<Rightarrow> (string \<times> file_info) list \<Rightarrow> string option" where
  "sources_stage content file_refs =
     (let sources_section_start = str_find content begin_sources;
          sources_section_end = str_find content end_sources
      in if sources_section_start = -1 \<or> sources_section_end = -1 then None
         else
           let files_array_start = str_find_from content files_array_open sources_section_start;
               files_array_end = str_find_from content files_array_close files_array_start
           in if files_array_start = -1 \<or> files_array_end = -1 then None
              else Some (insert_at files_array_end (source_entries file_refs) content))"

text \<open>The text that line 96 writes, or \<open>None\<close> when the function returns
  \<^verbatim>\<open>False\<close> before.\<close>

definition spliced_content :: "string \<Rightarrow> string list \<Rightarrow> random_source \<Rightarrow> string option" where
  "spliced_content content files_to_add rnd =
     (let file_refs = gen_file_refs files_to_add rnd
      in case build_file_stage content file_refs of
           None \<Rightarrow> None
         | Some content1 \<Rightarrow>
             (case file_ref_stage content1 file_refs of
                None \<Rightarrow> None
              | Some content2 \<Rightarrow> sources_stage content2 file_refs))"

subsection \<open>The file system and the function as a whole\<close>

text \<open>
  The scripts read and write text files. A world holds the files, the directories that
  exist, and the log of the writes made so far, in order, so that a property of the
  order of writes can be stated.
\<close>

type_synonym path = string

datatype fs_event = Wrote path string | Copied path path

record world =
  fs_files :: "path \<rightharpoonup> string"
  fs_dirs :: "path set"
  fs_log :: "fs_event list"

text \<open>\<^verbatim>\<open>with open(p, 'w') as f: f.write(text)\<close>.\<close>

definition write_file :: "path \<Rightarrow> string \<Rightarrow> world \<Rightarrow> world" where
  "write_file p text w = w\<lparr>fs_files := (fs_files w)(p \<mapsto> text), fs_log := fs_log w @ [Wrote p text]\<rparr>"

text \<open>\<^verbatim>\<open>shutil.copy2(src, dst)\<close>, called only after \<^verbatim>\<open>src\<close> was found to exist.\<close>

definition copy_file :: "path \<Rightarrow> path \<Rightarrow> world \<Rightarrow> world" where
  "copy_file src dst w =
     (case fs_files w src of
        None \<Rightarrow> w
      | Some text \<Rightarrow> w\<lparr>fs_files := (fs_files w)(dst \<mapsto> text), fs_log := fs_log w @ [Copied src dst]\<rparr>)"

text \<open>What one logged event does to the files.\<close>

fun apply_event :: "fs_event \<Rightarrow> (path \<rightharpoonup> string) \<Rightarrow> (path \<rightharpoonup> string)" where
  "apply_event (Wrote p text) fs = fs(p \<mapsto> text)"
| "apply_event (Copied src dst) fs = (case fs src of None \<Rightarrow> fs | Some text \<Rightarrow> fs(dst \<mapsto> text))"

text \<open>How a call ends: it returns a value, an exception leaves it, or \<^verbatim>\<open>sys.exit\<close>
  ends the process with a status.\<close>

datatype 'a outcome = Returned 'a | Raised | SysExit nat

definition pbxproj_path :: path where
  "pbxproj_path = ''documentAI.xcodeproj/project.pbxproj''"

text \<open>\<^verbatim>\<open>add_files_to_pbxproj\<close>, lines 10 to 98. Opening a file that does not exist
  raises; the only write is that of line 96, and no backup is made anywhere in this
  script.\<close>

definition add_files_to_pbxproj ::
  "path \<Rightarrow> string list \<Rightarrow> random_source \<Rightarrow> world \<Rightarrow> bool outcome \<times> world" where
  "add_files_to_pbxproj project_file files_to_add rnd w =
     (case fs_files w project_file of
        None \<Rightarrow> (Raised, w)
      | Some content \<Rightarrow>
          (case spliced_content content files_to_add rnd of
             None \<Rightarrow> (Returned False, w)
           | Some content' \<Rightarrow> (Returned True, write_file project_file content' w)))"

text \<open>The script body, lines 100 to 117, with its fixed list of files.\<close>

definition main_files_to_add :: "string list" where
  "main_files_to_add =
     [''documentAI/Extensions/PDFDocument+AcroForm.swift'',
      ''documentAI/Features/DocumentEditor/QuickLookPDFView.swift'']"

definition add_files_main :: "random_source \<Rightarrow> world \<Rightarrow> unit outcome \<times> world" where
  "add_files_main rnd w =
     (case add_files_to_pbxproj pbxproj_path main_files_to_add rnd w of
        (Returned True, w') \<Rightarrow> (Returned (), w')
      | (Returned False, w') \<Rightarrow> (SysExit 1, w')
      | (Raised, w') \<Rightarrow> (Raised, w')
      | (SysExit n, w') \<Rightarrow> (SysExit n, w'))"


section \<open>The library-backed synchronizer (auto_add_files.py)\<close>

text \<open>
  The script edits the project through the third-party \<^verbatim>\<open>pbxproj\<close> package, which is
  not part of the repository. Its calls are parameters of the model: a record of
  functions on a project type \<open>'p\<close>. A \<^verbatim>\<open>PBXFileReference\<close> object is what the script
  reads of it, its \<^verbatim>\<open>path\<close> attribute, together with the display name of the data
  model; an attribute that the object does not have is \<open>None\<close>.
\<close>

record file_reference =
  fr_name :: "string option"
  fr_path :: "string option"

record 'p xcode_lib =
  lib_load :: "string \<Rightarrow> 'p option"
  lib_file_references :: "'p \<Rightarrow> file_reference list"
  lib_get_target_by_name :: "'p \<Rightarrow> string \<Rightarrow> bool"
  lib_add_file :: "string \<Rightarrow> 'p \<Rightarrow> 'p \<times> bool"
  lib_save :: "'p \<Rightarrow> string option"

text \<open>
  \<^item> \<open>lib_load\<close>: \<^verbatim>\<open>XcodeProject.load\<close> on the text of the file, \<open>None\<close> when it raises;
  \<^item> \<open>lib_file_references\<close>: \<^verbatim>\<open>project.objects.get_objects_in_section('PBXFileReference')\<close>;
  \<^item> \<open>lib_get_target_by_name\<close>: whether \<^verbatim>\<open>get_target_by_name\<close> returns a target;
  \<^item> \<open>lib_add_file\<close>: the project after \<^verbatim>\<open>add_file\<close>, and \<open>False\<close> when the call raised;
  \<^item> \<open>lib_save\<close>: the text that \<^verbatim>\<open>save\<close> writes to the project file, \<open>None\<close> when it raises.
\<close>

definition backup_path :: path where
  "backup_path = pbxproj_path @ ''.backup''"

text \<open>\<^verbatim>\<open>get_files_in_project\<close>, lines 33 to 41: the non-empty \<^verbatim>\<open>path\<close> attributes.\<close>

definition get_files_in_project :: "'p xcode_lib \<Rightarrow> 'p \<Rightarrow> string set" where
  "get_files_in_project lib project =
     set (List.map_filter
            (\<lambda>obj. case fr_path obj of None \<Rightarrow> None | Some p \<Rightarrow> if p \<noteq> [] then Some p else None)
            (lib_file_references lib project))"

text \<open>Lines 113 to 119.\<close>

definition files_to_add_of :: "string list \<Rightarrow> string set \<Rightarrow> string list" where
  "files_to_add_of all_swift_files existing_files =
     filter (\<lambda>swift_file. basename swift_file \<notin> existing_files \<and> swift_file \<notin> existing_files)
       all_swift_files"

text \<open>\<^verbatim>\<open>add_files_to_project\<close>, lines 43 to 82. An exception of one \<^verbatim>\<open>add_file\<close> is
  caught inside the loop, every other one by the outer handler.\<close>

definition add_files_to_project ::
  "'p xcode_lib \<Rightarrow> path \<Rightarrow> string list \<Rightarrow> world \<Rightarrow> bool \<times> world" where
  "add_files_to_project lib project_path files_to_add w =
     (if files_to_add = [] then (True, w)
      else case Option.bind (fs_files w project_path) (lib_load lib) of
             None \<Rightarrow> (False, w)
           | Some project \<Rightarrow>
               if \<not> lib_get_target_by_name lib project ''documentAI'' then (False, w)
               else
                 let project' = fold (\<lambda>file_path p. fst (lib_add_file lib file_path p)) files_to_add project
                 in case lib_save lib project' of
                      None \<Rightarrow> (False, w)
                    | Some text \<Rightarrow> (True, write_file project_path text w))"

text \<open>\<^verbatim>\<open>main\<close>, lines 84 to 134. \<open>all_swift_files\<close> is what \<^verbatim>\<open>find_swift_files\<close> returns,
  the list of the Swift files under the source directory.\<close>

definition auto_add_main :: "'p xcode_lib \<Rightarrow> string list \<Rightarrow> world \<Rightarrow> unit outcome \<times> world" where
  "auto_add_main lib all_swift_files w =
     (if fs_files w pbxproj_path = None then (SysExit 1, w)
      else
        let w1 = (if fs_files w backup_path = None then copy_file pbxproj_path backup_path w else w)
        in case Option.bind (fs_files w1 pbxproj_path) (lib_load lib) of
             None \<Rightarrow> (SysExit 1, w1)
           | Some project \<Rightarrow>
               let existing_files = get_files_in_project lib project;
                   files_to_add = files_to_add_of all_swift_files existing_files
               in if files_to_add = [] then (Returned (), w1)
                  else case add_files_to_project lib pbxproj_path files_to_add w1 of
                         (True, w2) \<Rightarrow> (Returned (), w2)
                       | (False, w2) \<Rightarrow> (SysExit 1, w2))"


section \<open>The path rewrite (fix_xcode_references.py)\<close>







section \<open>The report (update_xcode_project.py)\<close>

text \<open>\<^verbatim>\<open>s.split(sep)\<close> for a separator that is not empty.\<close>

text \<open>A character read goes to the front of the first part; the list of parts is never
  empty.\<close>

fun push_char :: "char \<Rightarrow> string list \<Rightarrow> string list" where
  "push_char c [] = [c] # []"
| "push_char c (x # xs) = (c # x) # xs"

function str_split :: "string \<Rightarrow> string \<Rightarrow> string list" where
  "str_split [] sep = [] # []"
| "str_split (c # cs) sep =
     (if sep \<noteq> [] \<and> prefix sep (c # cs) then [] # str_split (drop (length sep) (c # cs)) sep
      else push_char c (str_split cs sep))"
  by pat_completeness auto
termination
  by (relation "measure (\<lambda>(s, sep). length s)") auto

text \<open>\<^verbatim>\<open>sep.join(parts)\<close>.\<close>

fun str_join :: "string \<Rightarrow> string list \<Rightarrow> string" where
  "str_join sep [] = []"
| "str_join sep [x] = x"
| "str_join sep (x # y # ys) = x @ sep @ str_join sep (y # ys)"

text \<open>\<^verbatim>\<open>s.strip(ch)\<close> for one character.\<close>

definition str_strip :: "char \<Rightarrow> string \<Rightarrow> string" where
  "str_strip ch s = rev (dropWhile (\<lambda>c. c = ch) (rev (dropWhile (\<lambda>c. c = ch) s)))"

text \<open>The body of the loop of lines 33 to 39, for one line: the file name it adds to
  the set, if any.\<close>

definition referenced_in_line :: "string \<Rightarrow> string option" where
  \<open>referenced_in_line line =
     (if str_in ''.swift'' line \<and> str_in ''path ='' line
      then let parts = str_split line ''path = ''
           in if length parts > 1 then Some (str_strip (CHR 0x22) (hd (str_split (parts ! 1) '';'')))
              else None
      else None)\<close>

text \<open>\<^verbatim>\<open>get_project_files_from_pbxproj\<close>, lines 25 to 43: a file that cannot be read
  gives the empty set, the exception being caught.\<close>

definition get_project_files_from_pbxproj :: "path \<Rightarrow> world \<Rightarrow> string set" where
  "get_project_files_from_pbxproj project_file w =
     (case fs_files w project_file of
        None \<Rightarrow> {}
      | Some content \<Rightarrow> set (List.map_filter referenced_in_line (str_split content [nl])))"

text \<open>Lines 67 to 72.\<close>

definition new_files_of :: "string list \<Rightarrow> string set \<Rightarrow> string list" where
  "new_files_of swift_files referenced =
     filter (\<lambda>file_path. basename file_path \<notin> referenced) swift_files"

definition xcodeproj_dir :: path where
  "xcodeproj_dir = ''documentAI.xcodeproj''"

text \<open>\<^verbatim>\<open>main\<close>, lines 45 to 93. The result is how the call ends, the list of files it
  prints for manual addition, and the world it leaves.\<close>

definition update_main :: "string list \<Rightarrow> world \<Rightarrow> unit outcome \<times> string list \<times> world" where
  "update_main swift_files w =
     (if xcodeproj_dir \<notin> fs_dirs w then (SysExit 1, [], w)
      else
        let referenced = get_project_files_from_pbxproj pbxproj_path w;
            new_files = new_files_of swift_files referenced
        in (Returned (), new_files, w))"

section \<open>Notions used in the statements\<close>

text \<open>\<open>first_at s sub start n\<close>: position \<open>n\<close> is the first one from \<open>start\<close> on at
  which \<open>sub\<close> begins in \<open>s\<close>.\<close>

definition first_at :: "string \<Rightarrow> string \<Rightarrow> nat \<Rightarrow> nat \<Rightarrow> bool" where
  "first_at s sub start n \<longleftrightarrow>
     start \<le> n \<and> n \<le> length s \<and> prefix sub (drop n s)
       \<and> (\<forall>i \<in> {start ..< n}. \<not> prefix sub (drop i s))"

text \<open>\<open>block_at s n x\<close>: the text \<open>x\<close> stands in \<open>s\<close> at position \<open>n\<close>.\<close>

definition block_at :: "string \<Rightarrow> nat \<Rightarrow> string \<Rightarrow> bool" where
  "block_at s n x \<longleftrightarrow> n + length x \<le> length s \<and> take (length x) (drop n s) = x"


text \<open>The three insertion points of a run that succeeds: the first in the text read,
  the second in the text that holds the build file entries, the third in the text that
  holds the file reference entries as well.\<close>

definition insertion_points :: "string \<Rightarrow> (string \<times> file_info) list \<Rightarrow> (nat \<times> nat \<times> nat) option" where
  "insertion_points content file_refs =
     (case build_file_stage content file_refs of
        None \<Rightarrow> None
      | Some content1 \<Rightarrow>
          (case file_ref_stage content1 file_refs of
             None \<Rightarrow> None
           | Some content2 \<Rightarrow>
               (case sources_stage content2 file_refs of
                  None \<Rightarrow> None
                | Some out \<Rightarrow>
                    Some (nat (str_find content end_build_file),
                          nat (str_find content1 end_file_reference),
                          nat (str_find_from content2 files_array_close
                                 (str_find_from content2 files_array_open
                                    (str_find content2 begin_sources)))))))"


text \<open>\<open>backup_before_write fs evs\<close>: starting from the files \<open>fs\<close>, every event of
  \<open>evs\<close> that overwrites the project file finds a backup file in place.\<close>

fun backup_before_write :: "(path \<rightharpoonup> string) \<Rightarrow> fs_event list \<Rightarrow> bool" where
  "backup_before_write fs [] = True"
| "backup_before_write fs (e # es) =
     ((case e of
         Wrote p text \<Rightarrow> p = pbxproj_path \<longrightarrow> fs backup_path \<noteq> None
       | Copied src dst \<Rightarrow> dst = pbxproj_path \<longrightarrow> fs backup_path \<noteq> None)
      \<and> backup_before_write (apply_event e fs) es)"

text \<open>The tracked files in the words of the specification: the base name or the full
  relative path is the path or the display name of some file reference.\<close>

definition spec_tracked :: "string \<Rightarrow> file_reference list \<Rightarrow> bool" where
  "spec_tracked swift_file refs \<longleftrightarrow>
     (\<exists>obj \<in> set refs.
        fr_path obj = Some (basename swift_file) \<or> fr_path obj = Some swift_file
      \<or> fr_name obj = Some (basename swift_file) \<or> fr_name obj = Some swift_file)"


section \<open>Example inputs\<close>

text \<open>A project file with the three sections, all empty.\<close>

definition example_manifest :: string where
  "example_manifest =
     begin_build_file @ [nl] @ end_build_file @ [nl]
     @ begin_file_reference @ [nl] @ end_file_reference @ [nl]
     @ begin_sources @ [nl] @ files_array_open @ [nl] @ files_array_close @ [nl] @ end_sources @ [nl]"

text \<open>The same text with the two markers of the first section in the opposite order.\<close>

definition reversed_manifest :: string where
  "reversed_manifest =
     end_build_file @ [nl] @ begin_build_file @ [nl]
     @ begin_file_reference @ [nl] @ end_file_reference @ [nl]
     @ begin_sources @ [nl] @ files_array_open @ [nl] @ files_array_close @ [nl] @ end_sources @ [nl]"

text \<open>Random sources: the \<^verbatim>\<open>hex\<close> strings of version 4 UUIDs.\<close>

definition example_rnd :: random_source where
  "example_rnd k =
     (if k = 0 then ''3f2a9c4e5b6d4a1f8e7c0b1a2d3e4f50''
      else if k = 1 then ''a1b2c3d4e5f64789abcdef0123456789''
      else if k = 2 then ''0f1e2d3c4b5a49788796a5b4c3d2e1f0''
      else ''9e8d7c6b5a4f4e3d9c2b1a0f9e8d7c6b'')"

definition second_rnd :: random_source where
  "second_rnd k =
     (if k = 0 then ''11223344556647788899aabbccddeeff''
      else if k = 1 then ''ffeeddccbbaa4998b776655443322110''
      else if k = 2 then ''0123456789ab4cde8f0123456789abcd''
      else ''fedcba9876544321a0123456789abcde'')"

text \<open>Two different UUIDs that agree on their first 24 digits.\<close>

definition colliding_rnd :: random_source where
  "colliding_rnd k =
     (if k = 0 then ''0123456789ab4cde8f0123450000aaaa'' else ''0123456789ab4cde8f012345ffffbbbb'')"

text \<open>The list of files of the examples.\<close>

definition example_files :: "string list" where
  "example_files = [''documentAI/A.swift'']"

definition marker_name :: string where
  "marker_name = ''End PBXFileReference section''"

text \<open>The run on the example: the texts after each splice.\<close>

definition example_refs :: "(string \<times> file_info) list" where
  "example_refs = gen_file_refs example_files example_rnd"

definition example_stage1 :: string where
  "example_stage1 = insert_at 33 (build_file_entries example_refs) example_manifest"

definition example_stage2 :: string where
  "example_stage2 = insert_at 229 (file_ref_entries example_refs) example_stage1"

definition example_output :: string where
  "example_output = insert_at 464 (source_entries example_refs) example_stage2"

text \<open>A run that adds a file whose name is the inside of a marker.\<close>

definition marker_name_refs :: "(string \<times> file_info) list" where
  "marker_name_refs = gen_file_refs [marker_name] example_rnd"

definition marker_name_stage1 :: string where
  "marker_name_stage1 = insert_at 33 (build_file_entries marker_name_refs) example_manifest"

definition marker_name_stage2 :: string where
  "marker_name_stage2 = insert_at 164 (file_ref_entries marker_name_refs) marker_name_stage1"

definition marker_name_output :: string where
  "marker_name_output = insert_at 548 (source_entries marker_name_refs) marker_name_stage2"

definition example_world :: world where
  "example_world = \<lparr>fs_files = [pbxproj_path \<mapsto> example_manifest], fs_dirs = {xcodeproj_dir}, fs_log = []\<rparr>"

definition reversed_world :: world where
  "reversed_world = \<lparr>fs_files = [pbxproj_path \<mapsto> reversed_manifest], fs_dirs = {xcodeproj_dir}, fs_log = []\<rparr>"

definition empty_world :: world where
  "empty_world = \<lparr>fs_files = [pbxproj_path \<mapsto> ''''], fs_dirs = {xcodeproj_dir}, fs_log = []\<rparr>"

text \<open>A stand-in for the library in the examples: a project file that lists one path
  per line, and a project that is the list of its file references.\<close>

definition line_lib :: "file_reference list xcode_lib" where
  "line_lib =
     \<lparr>lib_load = (\<lambda>text. Some (map (\<lambda>l. \<lparr>fr_name = None, fr_path = Some l\<rparr>) (str_split text [nl]))),
      lib_file_references = (\<lambda>project. project),
      lib_get_target_by_name = (\<lambda>project target. True),
      lib_add_file = (\<lambda>file_path project. (project @ [\<lparr>fr_name = None, fr_path = Some file_path\<rparr>], True)),
      lib_save = (\<lambda>project. Some (str_join [nl] (map (\<lambda>obj. case fr_path obj of None \<Rightarrow> [] | Some l \<Rightarrow> l) project)))\<rparr>"

definition lines_world :: world where
  "lines_world = \<lparr>fs_files = [pbxproj_path \<mapsto> ''Old.swift''], fs_dirs = {xcodeproj_dir}, fs_log = []\<rparr>"

text \<open>A file reference whose display name is the base name of the file and whose path
  is another one.\<close>

definition named_reference :: file_reference where
  "named_reference = \<lparr>fr_name = Some ''Foo.swift'', fr_path = Some ''Sources/Foo.swift''\<rparr>"




text \<open>The world that a first run of the library-backed synchronizer leaves, with the
  stand-in library.\<close>

definition lines_world_after :: world where
  "lines_world_after = snd (auto_add_main line_lib example_files lines_world)"

text \<open>The world that a first run of the direct inserter leaves.\<close>

definition example_world_after :: world where
  "example_world_after = snd (add_files_to_pbxproj pbxproj_path example_files example_rnd example_world)"


section \<open>Facts about the string primitives\<close>

lemma str_find_ge: "- 1 \<le> str_find s sub"
  by (induction s) (auto simp: next_index_def)

lemma str_find_first_at: "str_find s sub = int n \<Longrightarrow> first_at s sub 0 n"
proof (induction s arbitrary: n)
  case Nil
  then show ?case by (simp add: first_at_def split: if_splits)
next
  case (Cons c cs)
  show ?case
  proof (cases "prefix sub (c # cs)")
    case True
    with Cons.prems show ?thesis by (simp add: first_at_def)
  next
    case False
    with Cons.prems have r: "str_find cs sub \<noteq> - 1" "str_find cs sub + 1 = int n"
      by (auto simp: next_index_def split: if_splits)
    have "0 \<le> str_find cs sub" using str_find_ge [of cs sub] r(1) by linarith
    then obtain m where m: "str_find cs sub = int m" using nonneg_int_cases by blast
    with r(2) have n: "n = Suc m" by linarith
    have "first_at cs sub 0 m" using Cons.IH [OF m] .
    then have "m \<le> length cs" "prefix sub (drop m cs)" "\<forall>i<m. \<not> prefix sub (drop i cs)"
      by (auto simp: first_at_def)
    then have "\<forall>i<Suc m. \<not> prefix sub (drop i (c # cs))"
      using False by (auto simp: less_Suc_eq_0_disj)
    with \<open>m \<le> length cs\<close> \<open>prefix sub (drop m cs)\<close> show ?thesis
      by (simp add: first_at_def n)
  qed
qed


lemma str_find_missing_iff: "str_find s sub = - 1 \<longleftrightarrow> \<not> sublist sub s"
proof (induction s)
  case Nil
  show ?case by simp
next
  case (Cons c cs)
  have "str_find cs sub + 1 \<noteq> - 1" using str_find_ge [of cs sub] by linarith
  with Cons show ?case by (cases sub) (auto simp: sublist_code next_index_def)
qed

lemma str_find_found:
  assumes "str_find s sub \<noteq> - 1"
  shows "first_at s sub 0 (nat (str_find s sub))"
proof -
  have "0 \<le> str_find s sub" using str_find_ge [of s sub] assms by linarith
  then have "str_find s sub = int (nat (str_find s sub))" by simp
  then show ?thesis by (rule str_find_first_at)
qed

lemma first_at_shift:
  assumes "first_at (drop k s) sub 0 n" and "k \<le> length s"
  shows "first_at s sub k (k + n)"
proof -
  from assms have a: "n \<le> length s - k" "prefix sub (drop (n + k) s)"
    and b: "\<forall>i<n. \<not> prefix sub (drop (i + k) s)"
    by (auto simp: first_at_def)
  have "\<not> prefix sub (drop i s)" if "k \<le> i" "i < k + n" for i
  proof -
    from that have "i - k < n" by linarith
    with b have "\<not> prefix sub (drop (i - k + k) s)" by blast
    with that show ?thesis by simp
  qed
  with a assms(2) show ?thesis by (auto simp: first_at_def add.commute)
qed

lemma str_find_from_found:
  assumes "str_find_from s sub start \<noteq> - 1" and "0 \<le> start"
  shows "first_at s sub (nat start) (nat (str_find_from s sub start))"
    and "0 \<le> str_find_from s sub start"
proof -
  from assms have le: "nat start \<le> length s"
    and r: "str_find (drop (nat start) s) sub \<noteq> - 1"
    and eq: "str_find_from s sub start = start + str_find (drop (nat start) s) sub"
    by (auto simp: str_find_from_def Let_def split: if_splits)
  have nn: "0 \<le> str_find (drop (nat start) s) sub"
    using str_find_ge [of "drop (nat start) s" sub] r by linarith
  have "first_at s sub (nat start) (nat start + nat (str_find (drop (nat start) s) sub))"
    using first_at_shift [OF str_find_found [OF r] le] .
  moreover have "nat start + nat (str_find (drop (nat start) s) sub) = nat (str_find_from s sub start)"
    using eq nn assms(2) by (simp add: nat_add_distrib)
  ultimately show "first_at s sub (nat start) (nat (str_find_from s sub start))" by simp
  show "0 \<le> str_find_from s sub start" using eq nn assms(2) by simp
qed

lemma str_find_from_missing_iff:
  assumes "0 \<le> start" and "nat start \<le> length s"
  shows "str_find_from s sub start = - 1 \<longleftrightarrow> \<not> sublist sub (drop (nat start) s)"
proof -
  have "start + str_find (drop (nat start) s) sub \<noteq> - 1" if "str_find (drop (nat start) s) sub \<noteq> - 1"
    using str_find_ge [of "drop (nat start) s" sub] that assms(1) by linarith
  with assms show ?thesis
    by (auto simp: str_find_from_def Let_def str_find_missing_iff [symmetric])
qed


section \<open>Facts about the three splices\<close>




lemma spliced_content_Some:
  assumes "spliced_content content files_to_add rnd = Some out"
  shows "\<exists>content1 content2.
           build_file_stage content (gen_file_refs files_to_add rnd) = Some content1
         \<and> file_ref_stage content1 (gen_file_refs files_to_add rnd) = Some content2
         \<and> sources_stage content2 (gen_file_refs files_to_add rnd) = Some out"
  using assms by (auto simp: spliced_content_def Let_def split: option.splits)

lemma spliced_contentI:
  assumes "build_file_stage content (gen_file_refs files_to_add rnd) = Some content1"
    and "file_ref_stage content1 (gen_file_refs files_to_add rnd) = Some content2"
    and "sources_stage content2 (gen_file_refs files_to_add rnd) = Some out"
  shows "spliced_content content files_to_add rnd = Some out"
  using assms by (simp add: spliced_content_def Let_def)

lemma block_at_sublist: "block_at s n x \<Longrightarrow> sublist x s"
proof -
  assume a: "block_at s n x"
  have "s = take n s @ take (length x) (drop n s) @ drop (length x) (drop n s)"
    by (metis append_take_drop_id)
  with a have "s = take n s @ x @ drop (length x) (drop n s)"
    by (simp add: block_at_def)
  then show ?thesis unfolding sublist_def by blast
qed


lemma block_at_insert_before:
  assumes "block_at s n x" and "p \<le> n"
  shows "block_at (take p s @ ins @ drop p s) (n + length ins) x"
proof -
  from assms have len: "n + length x \<le> length s" and x: "take (length x) (drop n s) = x"
    by (simp_all add: block_at_def)
  have "drop (n + length ins) (take p s @ ins @ drop p s) = drop n s"
    using assms(2) len by (simp add: min_def)
  with len x assms(2) show ?thesis by (simp add: block_at_def)
qed



lemma sublist_concat_member: "x \<in> set xs \<Longrightarrow> sublist x (concat xs)"
proof -
  assume "x \<in> set xs"
  then obtain ys zs where "xs = ys @ x # zs" by (meson split_list)
  then have "concat xs = concat ys @ x @ concat zs" by simp
  then show ?thesis unfolding sublist_def by blast
qed

lemma file_refs_loop_lookup:
  assumes "\<forall>p i. map_of d p = Some i \<longrightarrow> name i = basename p"
    and "f \<in> set fs \<or> f \<in> dom (map_of d)"
  shows "\<exists>info. map_of (file_refs_loop fs rnd k d) f = Some info \<and> name info = basename f"
  using assms
proof (induction fs arbitrary: k d)
  case Nil
  then show ?case by auto
next
  case (Cons g fs)
  let ?v = "\<lparr>ref_uuid = uuid_token (rnd k), build_uuid = uuid_token (rnd (k + 1)), name = basename g\<rparr>"
  have inv: "\<forall>p i. map_of (AList.update g ?v d) p = Some i \<longrightarrow> name i = basename p"
    using Cons.prems(1) by (auto simp: update_conv')
  have mem: "f \<in> set fs \<or> f \<in> dom (map_of (AList.update g ?v d))"
    using Cons.prems(2) by (auto simp: update_conv')
  from Cons.IH [OF inv mem, of "k + 2"] show ?case by simp
qed

lemma gen_file_refs_lookup:
  assumes "f \<in> set files_to_add"
  shows "\<exists>info. (f, info) \<in> set (gen_file_refs files_to_add rnd) \<and> name info = basename f"
proof -
  from file_refs_loop_lookup [of "[]" f files_to_add rnd 0] assms
  obtain info where "map_of (gen_file_refs files_to_add rnd) f = Some info" "name info = basename f"
    by (auto simp: gen_file_refs_def)
  then show ?thesis by (blast dest: map_of_SomeD)
qed

lemma insertion_points_Some:
  assumes "spliced_content content files_to_add rnd = Some out"
  shows "\<exists>content1 content2 p1 p2 p3.
           insertion_points content (gen_file_refs files_to_add rnd) = Some (p1, p2, p3)
         \<and> p1 \<le> length content
         \<and> content1 = take p1 content @ build_file_entries (gen_file_refs files_to_add rnd) @ drop p1 content
         \<and> p2 \<le> length content1
         \<and> content2 = take p2 content1 @ file_ref_entries (gen_file_refs files_to_add rnd) @ drop p2 content1
         \<and> p3 \<le> length content2
         \<and> out = take p3 content2 @ source_entries (gen_file_refs files_to_add rnd) @ drop p3 content2"
proof -
  let ?fr = "gen_file_refs files_to_add rnd"
  from spliced_content_Some [OF assms] obtain content1 content2 where
    s1: "build_file_stage content ?fr = Some content1" and
    s2: "file_ref_stage content1 ?fr = Some content2" and
    s3: "sources_stage content2 ?fr = Some out"
    by blast
  let ?p1 = "str_find content end_build_file"
  let ?p2 = "str_find content1 end_file_reference"
  let ?ss = "str_find content2 begin_sources"
  let ?fs = "str_find_from content2 files_array_open ?ss"
  let ?p3 = "str_find_from content2 files_array_close ?fs"
  from s1 have e1: "?p1 \<noteq> - 1" and c1: "content1 = insert_at ?p1 (build_file_entries ?fr) content"
    by (auto simp: build_file_stage_def Let_def split: if_splits)
  from s2 have e2: "?p2 \<noteq> - 1" and c2: "content2 = insert_at ?p2 (file_ref_entries ?fr) content1"
    by (auto simp: file_ref_stage_def Let_def split: if_splits)
  from s3 have e3: "?ss \<noteq> - 1" "?fs \<noteq> - 1" "?p3 \<noteq> - 1"
    and c3: "out = insert_at ?p3 (source_entries ?fr) content2"
    by (auto simp: sources_stage_def Let_def split: if_splits)
  have ss0: "0 \<le> ?ss" using str_find_ge [of content2 begin_sources] e3(1) by linarith
  have fs0: "0 \<le> ?fs" using str_find_from_found(2) [OF e3(2) ss0] .
  have "nat ?p1 \<le> length content"
    using str_find_found [OF e1] by (simp add: first_at_def)
  moreover have "nat ?p2 \<le> length content1"
    using str_find_found [OF e2] by (simp add: first_at_def)
  moreover have "nat ?p3 \<le> length content2"
    using str_find_from_found(1) [OF e3(3) fs0] by (simp add: first_at_def)
  moreover have "insertion_points content ?fr = Some (nat ?p1, nat ?p2, nat ?p3)"
    using s1 s2 s3 by (simp add: insertion_points_def)
  ultimately show ?thesis
    using c1 c2 c3 unfolding insert_at_def by blast
qed


lemma build_file_stage_None_iff:
  "build_file_stage content file_refs = None
     \<longleftrightarrow> \<not> sublist begin_build_file content \<or> \<not> sublist end_build_file content"
  by (simp add: build_file_stage_def Let_def str_find_missing_iff)

lemma file_ref_stage_None_iff:
  "file_ref_stage content file_refs = None
     \<longleftrightarrow> \<not> sublist begin_file_reference content \<or> \<not> sublist end_file_reference content"
  by (simp add: file_ref_stage_def Let_def str_find_missing_iff)

lemma sources_stage_None_iff:
  "sources_stage content file_refs = None
     \<longleftrightarrow> \<not> sublist begin_sources content \<or> \<not> sublist end_sources content
        \<or> \<not> sublist files_array_open (drop (nat (str_find content begin_sources)) content)
        \<or> \<not> sublist files_array_close
              (drop (nat (str_find_from content files_array_open (str_find content begin_sources))) content)"
proof (cases "str_find content begin_sources = - 1 \<or> str_find content end_sources = - 1")
  case True
  then show ?thesis by (auto simp: sources_stage_def Let_def str_find_missing_iff)
next
  case False
  let ?ss = "str_find content begin_sources"
  let ?fs = "str_find_from content files_array_open ?ss"
  from False have s: "?ss \<noteq> - 1" by simp
  have ss0: "0 \<le> ?ss" using str_find_ge [of content begin_sources] s by linarith
  have ssl: "nat ?ss \<le> length content" using str_find_found [OF s] by (simp add: first_at_def)
  have open_iff: "?fs = - 1 \<longleftrightarrow> \<not> sublist files_array_open (drop (nat ?ss) content)"
    using str_find_from_missing_iff [OF ss0 ssl] .
  show ?thesis
  proof (cases "?fs = - 1")
    case True
    with False open_iff show ?thesis by (simp add: sources_stage_def Let_def)
  next
    case nf: False
    have fs0: "0 \<le> ?fs" using str_find_from_found(2) [OF nf ss0] .
    have fsl: "nat ?fs \<le> length content"
      using str_find_from_found(1) [OF nf ss0] by (simp add: first_at_def)
    have "str_find_from content files_array_close ?fs = - 1
            \<longleftrightarrow> \<not> sublist files_array_close (drop (nat ?fs) content)"
      using str_find_from_missing_iff [OF fs0 fsl] .
    with False nf open_iff show ?thesis
      by (simp add: sources_stage_def Let_def str_find_missing_iff)
  qed
qed

lemma spliced_content_None_iff:
  "spliced_content content files_to_add rnd = None \<longleftrightarrow>
     (build_file_stage content (gen_file_refs files_to_add rnd) = None
      \<or> (\<exists>content1. build_file_stage content (gen_file_refs files_to_add rnd) = Some content1
            \<and> (file_ref_stage content1 (gen_file_refs files_to_add rnd) = None
               \<or> (\<exists>content2. file_ref_stage content1 (gen_file_refs files_to_add rnd) = Some content2
                     \<and> sources_stage content2 (gen_file_refs files_to_add rnd) = None))))"
  by (auto simp: spliced_content_def Let_def split: option.splits)











section \<open>Facts about split, join and replace\<close>













section \<open>Facts about the library-backed synchronizer\<close>

lemma backup_path_neq: "backup_path \<noteq> pbxproj_path"
  by (simp add: backup_path_def)

lemma snd_case_flag:
  "snd (case x of (True, w2) \<Rightarrow> (a, w2) | (False, w2) \<Rightarrow> (b, w2)) = snd x"
  by (cases x) (simp split: bool.splits)

lemma add_files_to_project_world:
  "snd (add_files_to_project lib p files_to_add w) = w
     \<or> (\<exists>text. snd (add_files_to_project lib p files_to_add w) = write_file p text w)"
  by (auto simp: add_files_to_project_def Let_def split: option.splits)

lemma nonempty_paths_iff:
  "q \<in> set (List.map_filter
              (\<lambda>obj. case fr_path obj of None \<Rightarrow> None | Some p \<Rightarrow> if p \<noteq> [] then Some p else None)
              objs)
     \<longleftrightarrow> (\<exists>obj \<in> set objs. fr_path obj = Some q \<and> q \<noteq> [])"
  by (induction objs) (auto split: option.splits)

lemma get_files_in_project_iff:
  "q \<in> get_files_in_project lib project
     \<longleftrightarrow> (\<exists>obj \<in> set (lib_file_references lib project). fr_path obj = Some q \<and> q \<noteq> [])"
  unfolding get_files_in_project_def by (rule nonempty_paths_iff)


section \<open>Facts about the identifiers\<close>

lemma distinct_of_mset_subset:
  assumes "mset xs \<subseteq># mset ys" and "distinct ys"
  shows "distinct xs"
proof -
  have le: "count (mset xs) a \<le> 1" for a
  proof -
    have "count (mset xs) a \<le> count (mset ys) a"
      using assms(1) by (rule mset_subset_eq_count)
    also have "\<dots> \<le> 1"
      using assms(2) by (simp add: distinct_count_atmost_1)
    finally show ?thesis .
  qed
  have "count (mset xs) a = (if a \<in> set xs then 1 else 0)" for a
  proof (cases "a \<in> set xs")
    case True
    then have "0 < count (mset xs) a" by simp
    with le [of a] have "count (mset xs) a = 1" by linarith
    with True show ?thesis by simp
  next
    case False
    then show ?thesis by (simp add: count_eq_zero_iff)
  qed
  then show ?thesis by (simp add: distinct_count_atmost_1)
qed

lemma mset_allocated_ids_update:
  "mset (allocated_ids (AList.update p v d)) \<subseteq># mset (allocated_ids d) + {#ref_uuid v, build_uuid v#}"
proof (induction d)
  case Nil
  show ?case by (simp add: allocated_ids_def)
next
  case (Cons kv d)
  obtain q w where kv: "kv = (q, w)" by (cases kv)
  show ?case
  proof (cases "q = p")
    case True
    then show ?thesis by (simp add: kv allocated_ids_def)
  next
    case False
    have "mset (allocated_ids (AList.update p v (kv # d)))
            = {#ref_uuid w, build_uuid w#} + mset (allocated_ids (AList.update p v d))"
      using False by (simp add: kv allocated_ids_def)
    also have "\<dots> \<subseteq># {#ref_uuid w, build_uuid w#} + (mset (allocated_ids d) + {#ref_uuid v, build_uuid v#})"
      using Cons.IH by (rule subset_mset.add_left_mono)
    also have "\<dots> = mset (allocated_ids (kv # d)) + {#ref_uuid v, build_uuid v#}"
      by (simp add: kv allocated_ids_def)
    finally show ?thesis .
  qed
qed

lemma drawn_tokens_step:
  "drawn_tokens rnd k (2 * Suc n) = uuid_token (rnd k) # uuid_token (rnd (k + 1)) # drawn_tokens rnd (k + 2) (2 * n)"
  by (simp add: drawn_tokens_def upt_rec)

lemma mset_allocated_ids_loop:
  "mset (allocated_ids (file_refs_loop fs rnd k d))
     \<subseteq># mset (allocated_ids d) + mset (drawn_tokens rnd k (2 * length fs))"
proof (induction fs arbitrary: k d)
  case Nil
  show ?case by (simp add: drawn_tokens_def)
next
  case (Cons f fs)
  let ?v = "\<lparr>ref_uuid = uuid_token (rnd k), build_uuid = uuid_token (rnd (k + 1)), name = basename f\<rparr>"
  have "mset (allocated_ids (file_refs_loop (f # fs) rnd k d))
          \<subseteq># mset (allocated_ids (AList.update f ?v d)) + mset (drawn_tokens rnd (k + 2) (2 * length fs))"
    using Cons.IH [of "k + 2" "AList.update f ?v d"] by simp
  also have "\<dots> \<subseteq># (mset (allocated_ids d) + {#ref_uuid ?v, build_uuid ?v#})
                    + mset (drawn_tokens rnd (k + 2) (2 * length fs))"
    using mset_allocated_ids_update [of f ?v d] by (rule subset_mset.add_right_mono)
  also have "\<dots> = mset (allocated_ids d) + mset (drawn_tokens rnd k (2 * length (f # fs)))"
    using drawn_tokens_step [of rnd k "length fs"] by simp
  finally show ?case .
qed

lemma block_at_prefix: "block_at s q x \<Longrightarrow> prefix x (drop q s)"
  by (metis block_at_def take_is_prefix)

lemma first_at_le_block:
  assumes "first_at s sub st n" and "block_at s q sub" and "st \<le> q"
  shows "n \<le> q"
proof (rule ccontr)
  assume "\<not> n \<le> q"
  with assms(3) have "q \<in> {st ..< n}" by simp
  with assms(1) have "\<not> prefix sub (drop q s)" by (simp add: first_at_def)
  with block_at_prefix [OF assms(2)] show False by simp
qed

lemma block_at_drop:
  assumes "block_at s q x" and "k \<le> q"
  shows "block_at (drop k s) (q - k) x"
proof -
  from assms have "q - k + length x \<le> length (drop k s)"
    unfolding block_at_def by simp linarith
  moreover from assms have "take (length x) (drop (q - k) (drop k s)) = x"
    unfolding block_at_def by simp
  ultimately show ?thesis unfolding block_at_def by blast
qed

lemma block_at_found: "block_at s q x \<Longrightarrow> str_find s x \<noteq> - 1"
  by (simp add: str_find_missing_iff block_at_sublist)

lemma block_at_found_from:
  assumes "block_at s q x" and "0 \<le> st" and "nat st \<le> q"
  shows "str_find_from s x st \<noteq> - 1"
proof -
  from assms(1,3) have len: "nat st \<le> length s" by (simp add: block_at_def)
  have "sublist x (drop (nat st) s)"
    using block_at_drop [OF assms(1,3)] by (rule block_at_sublist)
  then show ?thesis using str_find_from_missing_iff [OF assms(2) len] by simp
qed

lemma build_file_stage_ordered:
  assumes "block_at c b begin_build_file" and "block_at c e end_build_file"
  shows "\<exists>p \<le> e. p \<le> length c
           \<and> build_file_stage c fr = Some (take p c @ build_file_entries fr @ drop p c)"
proof -
  let ?p = "str_find c end_build_file"
  have f: "?p \<noteq> - 1" using assms(2) by (rule block_at_found)
  have fa: "first_at c end_build_file 0 (nat ?p)" using f by (rule str_find_found)
  have "nat ?p \<le> e" using fa assms(2) by (rule first_at_le_block) simp
  moreover have "nat ?p \<le> length c" using fa by (simp add: first_at_def)
  moreover have "build_file_stage c fr = Some (take (nat ?p) c @ build_file_entries fr @ drop (nat ?p) c)"
    using f block_at_found [OF assms(1)] by (simp add: build_file_stage_def insert_at_def)
  ultimately show ?thesis by blast
qed

lemma file_ref_stage_ordered:
  assumes "block_at c b begin_file_reference" and "block_at c e end_file_reference"
  shows "\<exists>p \<le> e. p \<le> length c
           \<and> file_ref_stage c fr = Some (take p c @ file_ref_entries fr @ drop p c)"
proof -
  let ?p = "str_find c end_file_reference"
  have f: "?p \<noteq> - 1" using assms(2) by (rule block_at_found)
  have fa: "first_at c end_file_reference 0 (nat ?p)" using f by (rule str_find_found)
  have "nat ?p \<le> e" using fa assms(2) by (rule first_at_le_block) simp
  moreover have "nat ?p \<le> length c" using fa by (simp add: first_at_def)
  moreover have "file_ref_stage c fr = Some (take (nat ?p) c @ file_ref_entries fr @ drop (nat ?p) c)"
    using f block_at_found [OF assms(1)] by (simp add: file_ref_stage_def insert_at_def)
  ultimately show ?thesis by blast
qed

lemma sources_stage_ordered:
  assumes "block_at c s begin_sources" and "block_at c se end_sources"
    and "block_at c fo files_array_open" and "block_at c fc files_array_close"
    and "s \<le> fo" and "fo \<le> fc"
  shows "\<exists>out. sources_stage c fr = Some out"
proof -
  let ?ss = "str_find c begin_sources"
  let ?fs = "str_find_from c files_array_open ?ss"
  let ?p = "str_find_from c files_array_close ?fs"
  have s1: "?ss \<noteq> - 1" using assms(1) by (rule block_at_found)
  have s2: "str_find c end_sources \<noteq> - 1" using assms(2) by (rule block_at_found)
  have ss0: "0 \<le> ?ss" using str_find_ge [of c begin_sources] s1 by linarith
  have "nat ?ss \<le> s"
    using str_find_found [OF s1] assms(1) by (rule first_at_le_block) simp
  with assms(5) have ssfo: "nat ?ss \<le> fo" by simp
  have f1: "?fs \<noteq> - 1" using assms(3) ss0 ssfo by (rule block_at_found_from)
  have fs0: "0 \<le> ?fs" using str_find_from_found(2) [OF f1 ss0] .
  have "nat ?fs \<le> fo"
    using str_find_from_found(1) [OF f1 ss0] assms(3) ssfo by (rule first_at_le_block)
  with assms(6) have "nat ?fs \<le> fc" by simp
  with assms(4) fs0 have "?p \<noteq> - 1" by (rule block_at_found_from)
  with s1 s2 f1 show ?thesis by (simp add: sources_stage_def Let_def)
qed

lemma ordered_markers_accepted:
  assumes "block_at c b1 begin_build_file" and "block_at c e1 end_build_file"
    and "block_at c b2 begin_file_reference" and "block_at c e2 end_file_reference"
    and "block_at c s begin_sources" and "block_at c se end_sources"
    and "block_at c fo files_array_open" and "block_at c fc files_array_close"
    and "e1 \<le> b2" and "e1 \<le> e2" and "e2 \<le> s" and "e2 \<le> se" and "s \<le> fo" and "fo \<le> fc"
  shows "\<exists>out. spliced_content c files_to_add rnd = Some out"
proof -
  let ?fr = "gen_file_refs files_to_add rnd"
  let ?B = "build_file_entries ?fr" and ?R = "file_ref_entries ?fr"
  from build_file_stage_ordered [OF assms(1,2), of ?fr] obtain p1 where
    p1: "p1 \<le> e1" and st1: "build_file_stage c ?fr = Some (take p1 c @ ?B @ drop p1 c)"
    by blast
  let ?c1 = "take p1 c @ ?B @ drop p1 c"
  have shift1: "block_at ?c1 (q + length ?B) x" if "block_at c q x" "e1 \<le> q" for q x
    using that(1) by (rule block_at_insert_before) (use p1 that(2) in simp)
  from file_ref_stage_ordered [OF shift1 [OF assms(3,9)] shift1 [OF assms(4,10)], of ?fr]
  obtain p2 where p2: "p2 \<le> e2 + length ?B"
    and st2: "file_ref_stage ?c1 ?fr = Some (take p2 ?c1 @ ?R @ drop p2 ?c1)"
    by blast
  let ?c2 = "take p2 ?c1 @ ?R @ drop p2 ?c1"
  have shift2: "block_at ?c2 (q + length ?B + length ?R) x" if "block_at c q x" "e2 \<le> q" for q x
  proof -
    from that assms(10) have "block_at ?c1 (q + length ?B) x" by (intro shift1) simp_all
    then show ?thesis by (rule block_at_insert_before) (use p2 that(2) in simp)
  qed
  from sources_stage_ordered [OF shift2 [OF assms(5,11)] shift2 [OF assms(6,12)]
      shift2 [OF assms(7)] shift2 [OF assms(8)], of ?fr] assms(11,13,14)
  obtain out where "sources_stage ?c2 ?fr = Some out" by auto
  with st1 st2 show ?thesis by (auto intro: spliced_contentI)
qed

lemma length_inserted:
  "p \<le> length s \<Longrightarrow> length (take p s @ ins @ drop p s) = length s + length ins"
  by simp

lemma spliced_content_length:
  assumes "spliced_content c files_to_add rnd = Some out"
  shows "length out = length c + length (build_file_entries (gen_file_refs files_to_add rnd))
           + length (file_ref_entries (gen_file_refs files_to_add rnd))
           + length (source_entries (gen_file_refs files_to_add rnd))"
proof -
  let ?fr = "gen_file_refs files_to_add rnd"
  from insertion_points_Some [OF assms] obtain content1 content2 p1 p2 p3 where
    l1: "p1 \<le> length c" and
    c1: "content1 = take p1 c @ build_file_entries ?fr @ drop p1 c" and
    l2: "p2 \<le> length content1" and
    c2: "content2 = take p2 content1 @ file_ref_entries ?fr @ drop p2 content1" and
    l3: "p3 \<le> length content2" and
    c3: "out = take p3 content2 @ source_entries ?fr @ drop p3 content2"
    by blast
  have "length content1 = length c + length (build_file_entries ?fr)"
    unfolding c1 using l1 by (rule length_inserted)
  moreover have "length content2 = length content1 + length (file_ref_entries ?fr)"
    unfolding c2 using l2 by (rule length_inserted)
  moreover have "length out = length content2 + length (source_entries ?fr)"
    unfolding c3 using l3 by (rule length_inserted)
  ultimately show ?thesis by linarith
qed


section \<open>The example runs, evaluated\<close>

lemma marker_lengths:
  "length begin_build_file = 32" "length end_build_file = 30"
  "length begin_file_reference = 36" "length end_file_reference = 34"
  "length begin_sources = 40" "length end_sources = 38"
  "length files_array_open = 9" "length files_array_close = 2"
  by (simp_all add: begin_build_file_def end_build_file_def begin_file_reference_def
        end_file_reference_def begin_sources_def end_sources_def files_array_open_def
        files_array_close_def)

lemma example_lengths:
  "length (build_file_entries example_refs) = 128"
  "length (file_ref_entries example_refs) = 149"
  "length (source_entries example_refs) = 55"
  by code_simp+

lemma example_stage1_eq:
  "example_stage1 = begin_build_file @ [nl] @ build_file_entries example_refs @ end_build_file @ [nl] @ begin_file_reference @ [nl] @ end_file_reference @ [nl] @ begin_sources @ [nl] @ files_array_open @ [nl] @ files_array_close @ [nl] @ end_sources @ [nl]"
  by (simp add: example_stage1_def example_manifest_def insert_at_def marker_lengths)

lemma example_stage2_eq:
  "example_stage2 = begin_build_file @ [nl] @ build_file_entries example_refs @ end_build_file @ [nl] @ begin_file_reference @ [nl] @ file_ref_entries example_refs @ end_file_reference @ [nl] @ begin_sources @ [nl] @ files_array_open @ [nl] @ files_array_close @ [nl] @ end_sources @ [nl]"
  by (simp add: example_stage2_def example_stage1_eq insert_at_def marker_lengths example_lengths)

lemma example_output_eq:
  "example_output = begin_build_file @ [nl] @ build_file_entries example_refs @ end_build_file @ [nl] @ begin_file_reference @ [nl] @ file_ref_entries example_refs @ end_file_reference @ [nl] @ begin_sources @ [nl] @ files_array_open @ [nl] @ source_entries example_refs @ files_array_close @ [nl] @ end_sources @ [nl]"
  by (simp add: example_output_def example_stage2_eq insert_at_def marker_lengths example_lengths)

lemma example_find_build_file:
  "str_find example_manifest begin_build_file = 0"
  "str_find example_manifest end_build_file = 33"
  by code_simp+

lemma example_find_file_reference:
  "str_find example_stage1 end_file_reference = 229"
  by code_simp

lemma example_begin_file_reference:
  "block_at example_stage1 192 begin_file_reference"
  by (simp add: block_at_def example_stage1_eq marker_lengths example_lengths)

lemma example_find_sources:
  "str_find example_stage2 begin_sources = 413"
  by code_simp

lemma example_end_sources:
  "block_at example_stage2 467 end_sources"
  by (simp add: block_at_def example_stage2_eq marker_lengths example_lengths)

lemma example_sources_tail:
  "str_find (begin_sources @ nl # files_array_open @ nl # files_array_close @ nl # end_sources @ [nl]) files_array_open = 41"
  "str_find (files_array_open @ nl # files_array_close @ nl # end_sources @ [nl]) files_array_close = 10"
  by code_simp+

lemma example_find_files_array:
  "str_find_from example_stage2 files_array_open 413 = 454"
  "str_find_from example_stage2 files_array_close 454 = 464"
  by (simp_all add: str_find_from_def example_stage2_eq marker_lengths example_lengths example_sources_tail)

lemma example_stages:
  "build_file_stage example_manifest example_refs = Some example_stage1"
  "file_ref_stage example_stage1 example_refs = Some example_stage2"
  "sources_stage example_stage2 example_refs = Some example_output"
  unfolding example_stage1_def [symmetric] example_stage2_def [symmetric] example_output_def
  using block_at_found [OF example_begin_file_reference] block_at_found [OF example_end_sources]
  by (simp_all add: build_file_stage_def file_ref_stage_def sources_stage_def
        example_find_build_file example_find_file_reference example_find_sources example_find_files_array
        example_stage1_def [symmetric] example_stage2_def [symmetric])

lemma example_run:
  "spliced_content example_manifest example_files example_rnd = Some example_output"
  using example_stages unfolding example_refs_def by (rule spliced_contentI)


lemma example_output_blocks:
  "block_at example_output 0 begin_build_file"
  "block_at example_output 161 end_build_file"
  "block_at example_output 192 begin_file_reference"
  "block_at example_output 378 end_file_reference"
  "block_at example_output 413 begin_sources"
  "block_at example_output 522 end_sources"
  "block_at example_output 454 files_array_open"
  "block_at example_output 519 files_array_close"
  by (simp_all add: block_at_def example_output_eq example_lengths marker_lengths)

lemma example_output_accepted:
  "\<exists>out. spliced_content example_output files_to_add rnd = Some out"
  by (rule ordered_markers_accepted [OF example_output_blocks(1,2,3,4,5,6,7,8)]) simp_all

lemma marker_name_lengths:
  "length (build_file_entries marker_name_refs) = 170"
  "length (file_ref_entries marker_name_refs) = 191"
  "length (source_entries marker_name_refs) = 76"
  by code_simp+

lemma marker_name_stage1_eq:
  "marker_name_stage1 = begin_build_file @ [nl] @ build_file_entries marker_name_refs @ end_build_file @ [nl] @ begin_file_reference @ [nl] @ end_file_reference @ [nl] @ begin_sources @ [nl] @ files_array_open @ [nl] @ files_array_close @ [nl] @ end_sources @ [nl]"
  by (simp add: marker_name_stage1_def example_manifest_def insert_at_def marker_lengths)

lemma marker_name_stage2_eq:
  "marker_name_stage2 = begin_build_file @ [nl] @ take 131 (build_file_entries marker_name_refs) @ file_ref_entries marker_name_refs @ drop 131 (build_file_entries marker_name_refs) @ end_build_file @ [nl] @ begin_file_reference @ [nl] @ end_file_reference @ [nl] @ begin_sources @ [nl] @ files_array_open @ [nl] @ files_array_close @ [nl] @ end_sources @ [nl]"
  by (simp add: marker_name_stage2_def marker_name_stage1_eq insert_at_def marker_lengths marker_name_lengths)

lemma marker_name_output_eq:
  "marker_name_output = begin_build_file @ [nl] @ take 131 (build_file_entries marker_name_refs) @ file_ref_entries marker_name_refs @ drop 131 (build_file_entries marker_name_refs) @ end_build_file @ [nl] @ begin_file_reference @ [nl] @ end_file_reference @ [nl] @ begin_sources @ [nl] @ files_array_open @ [nl] @ source_entries marker_name_refs @ files_array_close @ [nl] @ end_sources @ [nl]"
  by (simp add: marker_name_output_def marker_name_stage2_eq insert_at_def marker_lengths marker_name_lengths)

lemma marker_name_find_build_file:
  "str_find example_manifest begin_build_file = 0"
  "str_find example_manifest end_build_file = 33"
  by code_simp+

lemma marker_name_find_file_reference:
  "str_find marker_name_stage1 end_file_reference = 164"
  by code_simp

lemma marker_name_begin_file_reference:
  "block_at marker_name_stage1 234 begin_file_reference"
  by (simp add: block_at_def marker_name_stage1_eq marker_lengths marker_name_lengths)

lemma marker_name_find_sources:
  "str_find marker_name_stage2 begin_sources = 497"
  by code_simp

lemma marker_name_end_sources:
  "block_at marker_name_stage2 551 end_sources"
  by (simp add: block_at_def marker_name_stage2_eq marker_lengths marker_name_lengths)

lemma marker_name_sources_tail:
  "str_find (begin_sources @ nl # files_array_open @ nl # files_array_close @ nl # end_sources @ [nl]) files_array_open = 41"
  "str_find (files_array_open @ nl # files_array_close @ nl # end_sources @ [nl]) files_array_close = 10"
  by code_simp+

lemma marker_name_find_files_array:
  "str_find_from marker_name_stage2 files_array_open 497 = 538"
  "str_find_from marker_name_stage2 files_array_close 538 = 548"
  by (simp_all add: str_find_from_def marker_name_stage2_eq marker_lengths marker_name_lengths marker_name_sources_tail)

lemma marker_name_stages:
  "build_file_stage example_manifest marker_name_refs = Some marker_name_stage1"
  "file_ref_stage marker_name_stage1 marker_name_refs = Some marker_name_stage2"
  "sources_stage marker_name_stage2 marker_name_refs = Some marker_name_output"
  unfolding marker_name_stage1_def [symmetric] marker_name_stage2_def [symmetric] marker_name_output_def
  using block_at_found [OF marker_name_begin_file_reference] block_at_found [OF marker_name_end_sources]
  by (simp_all add: build_file_stage_def file_ref_stage_def sources_stage_def
        marker_name_find_build_file marker_name_find_file_reference marker_name_find_sources marker_name_find_files_array
        marker_name_stage1_def [symmetric] marker_name_stage2_def [symmetric])


lemma marker_name_insertion_points:
  "insertion_points example_manifest marker_name_refs = Some (33, 164, 548)"
  by (simp add: insertion_points_def marker_name_stages
        marker_name_find_build_file marker_name_find_file_reference marker_name_find_sources marker_name_find_files_array)

lemma reversed_manifest_blocks:
  "block_at reversed_manifest 31 begin_build_file"
  "block_at reversed_manifest 0 end_build_file"
  "block_at reversed_manifest 64 begin_file_reference"
  "block_at reversed_manifest 101 end_file_reference"
  "block_at reversed_manifest 136 begin_sources"
  "block_at reversed_manifest 190 end_sources"
  "block_at reversed_manifest 177 files_array_open"
  "block_at reversed_manifest 187 files_array_close"
  by (simp_all add: block_at_def reversed_manifest_def marker_lengths)

lemma reversed_manifest_accepted:
  "\<exists>out. spliced_content reversed_manifest files_to_add rnd = Some out"
  by (rule ordered_markers_accepted [OF reversed_manifest_blocks(1,2,3,4,5,6,7,8)]) simp_all
lemma example_world_manifest: "fs_files example_world pbxproj_path = Some example_manifest"
  by (simp add: example_world_def)

lemma example_first_run:
  "add_files_to_pbxproj pbxproj_path example_files example_rnd example_world
     = (Returned True, write_file pbxproj_path example_output example_world)"
  by (simp add: add_files_to_pbxproj_def example_world_manifest example_run)

lemma build_file_entries_not_Nil:
  assumes "files_to_add \<noteq> []"
  shows "build_file_entries (gen_file_refs files_to_add rnd) \<noteq> []"
proof -
  from assms obtain f where "f \<in> set files_to_add" by (cases files_to_add) auto
  from gen_file_refs_lookup [OF this, of rnd] obtain info where
    "(f, info) \<in> set (gen_file_refs files_to_add rnd)" by blast
  then have "sublist (build_file_entry info) (build_file_entries (gen_file_refs files_to_add rnd))"
    unfolding build_file_entries_def by (intro sublist_concat_member) force
  moreover have "build_file_entry info \<noteq> []" by (simp add: build_file_entry_def)
  ultimately show ?thesis by auto
qed

lemma spliced_content_changes:
  assumes "spliced_content c files_to_add rnd = Some out" and "files_to_add \<noteq> []"
  shows "out \<noteq> c"
proof -
  have "length (build_file_entries (gen_file_refs files_to_add rnd)) > 0"
    using build_file_entries_not_Nil [OF assms(2)] by simp
  with spliced_content_length [OF assms(1)] have "length out > length c" by linarith
  then show ?thesis by auto
qed


section \<open>The claims\<close>

subsection \<open>C1: identifiers\<close>

text \<open>
  C1, as amended. An identifier is the first 24 digits, in upper case, of one draw of the
  random source, and the script compares it with nothing. The identifiers of a run are
  pairwise distinct, and disjoint from any set \<open>existing\<close> of identifiers, whenever
  the truncated draws of that run are. The draws are two per element of the list of
  files.
\<close>

theorem allocated_ids_distinct_when_draws_distinct:
  assumes "distinct (drawn_tokens rnd 0 (2 * length files_to_add))"
    and "set (drawn_tokens rnd 0 (2 * length files_to_add)) \<inter> existing = {}"
  shows "distinct (allocated_ids (gen_file_refs files_to_add rnd))
       \<and> set (allocated_ids (gen_file_refs files_to_add rnd)) \<inter> existing = {}"
proof -
  have sub: "mset (allocated_ids (gen_file_refs files_to_add rnd))
               \<subseteq># mset (drawn_tokens rnd 0 (2 * length files_to_add))"
    using mset_allocated_ids_loop [of files_to_add rnd 0 "[]"]
    by (simp add: gen_file_refs_def allocated_ids_def)
  have "distinct (allocated_ids (gen_file_refs files_to_add rnd))"
    using sub assms(1) by (rule distinct_of_mset_subset)
  moreover have "set (allocated_ids (gen_file_refs files_to_add rnd))
                   \<subseteq> set (drawn_tokens rnd 0 (2 * length files_to_add))"
    using sub by (metis set_mset_mono set_mset_mset)
  ultimately show ?thesis using assms(2) by blast
qed

text \<open>C1, witness: the example random source and one file.\<close>

theorem allocated_ids_distinct_witness:
  "distinct (drawn_tokens example_rnd 0 (2 * length example_files))
   \<and> set (drawn_tokens example_rnd 0 (2 * length example_files)) \<inter> {''B1000001''} = {}
   \<and> distinct (allocated_ids (gen_file_refs example_files example_rnd))
   \<and> set (allocated_ids (gen_file_refs example_files example_rnd)) \<inter> {''B1000001''} = {}"
proof -
  have h1: "distinct (drawn_tokens example_rnd 0 (2 * length example_files))"
    by code_simp
  have h2: "set (drawn_tokens example_rnd 0 (2 * length example_files)) \<inter> {''B1000001''} = {}"
    by code_simp
  from allocated_ids_distinct_when_draws_distinct [OF h1 h2] h1 h2 show ?thesis
    by blast
qed

text \<open>
  C1, counterexample to the claim as stated: the random source yields two different
  UUIDs that agree on their first 24 digits, and the two identifiers allocated for one
  file are equal.
\<close>

theorem truncated_tokens_collide:
  "colliding_rnd 0 \<noteq> colliding_rnd 1
   \<and> \<not> distinct (allocated_ids (gen_file_refs example_files colliding_rnd))"
  by code_simp


subsection \<open>C2: the backup\<close>

text \<open>
  C2, as amended. In the library-backed synchronizer, every write of the project file
  finds a backup file in place: the run copies the project file to the backup path
  first when no backup exists, and otherwise leaves the existing backup as it is, so
  that the backup holds the text read by this run only when this run has made it. The
  direct inserter makes no backup.
\<close>

theorem auto_add_backup_precedes_write:
  "\<exists>evs. fs_log (snd (auto_add_main lib all_swift_files w)) = fs_log w @ evs
       \<and> backup_before_write (fs_files w) evs
       \<and> (\<forall>b. fs_files w backup_path = Some b \<longrightarrow>
              fs_files (snd (auto_add_main lib all_swift_files w)) backup_path = Some b
              \<and> Copied pbxproj_path backup_path \<notin> set evs)
       \<and> (fs_files w backup_path = None \<and> fs_files w pbxproj_path \<noteq> None \<longrightarrow>
              fs_files (snd (auto_add_main lib all_swift_files w)) backup_path
                = fs_files w pbxproj_path)"
proof (cases "fs_files w pbxproj_path")
  case None
  then have "snd (auto_add_main lib all_swift_files w) = w"
    by (simp add: auto_add_main_def)
  with None show ?thesis by simp
next
  case (Some text0)
  define w1 where "w1 = (if fs_files w backup_path = None then copy_file pbxproj_path backup_path w else w)"
  define evs1 where "evs1 = (if fs_files w backup_path = None then [Copied pbxproj_path backup_path] else [])"
  have log1: "fs_log w1 = fs_log w @ evs1"
    using Some by (simp add: w1_def evs1_def copy_file_def)
  have bk1: "fs_files w1 backup_path = (case fs_files w backup_path of None \<Rightarrow> Some text0 | Some b \<Rightarrow> Some b)"
    using Some by (auto simp: w1_def copy_file_def)
  have pj1: "fs_files w1 pbxproj_path = Some text0"
    using Some backup_path_neq by (auto simp: w1_def copy_file_def)
  have fs1: "fs_files w1 = fold apply_event evs1 (fs_files w)"
    using Some by (auto simp: w1_def evs1_def copy_file_def)
  let ?w' = "snd (auto_add_main lib all_swift_files w)"
  have "?w' = w1 \<or> (\<exists>fl. ?w' = snd (add_files_to_project lib pbxproj_path fl w1))"
    using Some
    by (auto simp: auto_add_main_def Let_def w1_def [symmetric] snd_case_flag split: option.splits)
  then have "?w' = w1 \<or> (\<exists>text. ?w' = write_file pbxproj_path text w1)"
    using add_files_to_project_world [of lib pbxproj_path _ w1] by metis
  then show ?thesis
  proof
    assume "?w' = w1"
    with log1 bk1 Some show ?thesis
      by (intro exI [of _ evs1]) (auto simp: evs1_def backup_path_neq)
  next
    assume "\<exists>text. ?w' = write_file pbxproj_path text w1"
    then obtain saved where w': "?w' = write_file pbxproj_path saved w1" by blast
    have "fs_log ?w' = fs_log w @ (evs1 @ [Wrote pbxproj_path saved])"
      using log1 by (simp add: w' write_file_def)
    moreover have "backup_before_write (fs_files w) (evs1 @ [Wrote pbxproj_path saved])"
      using Some by (auto simp: evs1_def backup_path_neq)
    moreover have "fs_files ?w' backup_path = fs_files w1 backup_path"
      using backup_path_neq by (simp add: w' write_file_def)
    ultimately show ?thesis
      using bk1 Some by (intro exI [of _ "evs1 @ [Wrote pbxproj_path saved]"]) (auto simp: evs1_def)
  qed
qed

text \<open>C2, witness: a first run with the stand-in library, no backup being there.\<close>

theorem auto_add_backup_witness:
  "fs_files lines_world backup_path = None
   \<and> fs_files lines_world pbxproj_path \<noteq> None
   \<and> fs_files (snd (auto_add_main line_lib example_files lines_world)) backup_path = Some ''Old.swift''
   \<and> (\<exists>evs. fs_log (snd (auto_add_main line_lib example_files lines_world)) = fs_log lines_world @ evs
          \<and> backup_before_write (fs_files lines_world) evs)"
proof -
  have h1: "fs_files lines_world backup_path = None"
    by (simp add: lines_world_def backup_path_def pbxproj_path_def)
  have h2: "fs_files lines_world pbxproj_path = Some ''Old.swift''"
    by (simp add: lines_world_def)
  from auto_add_backup_precedes_write [of line_lib example_files lines_world] h1 h2
  show ?thesis by auto
qed

text \<open>
  C2, counterexample to the claim as stated: the direct inserter overwrites the project
  file of the example while no backup file exists.
\<close>

theorem direct_inserter_writes_without_backup:
  "fst (add_files_to_pbxproj pbxproj_path example_files example_rnd example_world) = Returned True
   \<and> fs_log (snd (add_files_to_pbxproj pbxproj_path example_files example_rnd example_world))
       = [Wrote pbxproj_path example_output]
   \<and> fs_files example_world backup_path = None
   \<and> \<not> backup_before_write (fs_files example_world)
         (fs_log (snd (add_files_to_pbxproj pbxproj_path example_files example_rnd example_world)))"
proof -
  have none: "fs_files example_world backup_path = None"
    by (simp add: example_world_def backup_path_def pbxproj_path_def)
  have log: "fs_log (write_file pbxproj_path example_output example_world)
               = [Wrote pbxproj_path example_output]"
    by (simp add: write_file_def example_world_def)
  show ?thesis
    unfolding example_first_run using none log by simp
qed


subsection \<open>C3: the three entries of a file\<close>





subsection \<open>C4: a second run\<close>

text \<open>
  C4, as amended. A run of the library-backed synchronizer that finds every Swift file
  tracked, its base name or its relative path being the path of a file reference of the
  project as loaded, ends normally, adds nothing and does not write the project file,
  which stays as it was; it only makes the backup when there is none. So a second run
  changes nothing when the project file that the first run has saved lists every file
  in that way. The direct inserter has no such check and inserts its files on every
  run.
\<close>

theorem auto_add_tracked_run_is_noop:
  assumes "fs_files w pbxproj_path = Some text"
    and "lib_load lib text = Some project"
    and "\<forall>f \<in> set all_swift_files.
           basename f \<in> get_files_in_project lib project \<or> f \<in> get_files_in_project lib project"
  shows "fst (auto_add_main lib all_swift_files w) = Returned ()
       \<and> fs_files (snd (auto_add_main lib all_swift_files w)) pbxproj_path = Some text
       \<and> fs_log (snd (auto_add_main lib all_swift_files w))
           = fs_log w @ (if fs_files w backup_path = None then [Copied pbxproj_path backup_path] else [])"
proof -
  have none: "files_to_add_of all_swift_files (get_files_in_project lib project) = []"
    using assms(3) by (auto simp: files_to_add_of_def filter_empty_conv)
  show ?thesis
    using assms(1,2) none backup_path_neq
    by (auto simp: auto_add_main_def Let_def copy_file_def)
qed

text \<open>C4, witness: the second of two runs with the stand-in library.\<close>

theorem auto_add_second_run_witness:
  "fs_files lines_world_after pbxproj_path = Some (''Old.swift'' @ [nl] @ ''documentAI/A.swift'')
   \<and> lib_load line_lib (''Old.swift'' @ [nl] @ ''documentAI/A.swift'')
       = Some [\<lparr>fr_name = None, fr_path = Some ''Old.swift''\<rparr>,
               \<lparr>fr_name = None, fr_path = Some ''documentAI/A.swift''\<rparr>]
   \<and> fst (auto_add_main line_lib example_files lines_world_after) = Returned ()
   \<and> fs_files (snd (auto_add_main line_lib example_files lines_world_after)) pbxproj_path
       = fs_files lines_world_after pbxproj_path"
proof -
  let ?project = "[\<lparr>fr_name = None, fr_path = Some ''Old.swift''\<rparr>,
                   \<lparr>fr_name = None, fr_path = Some ''documentAI/A.swift''\<rparr>]"
  have neq: "pbxproj_path \<noteq> backup_path"
    by (simp add: backup_path_def)
  have h1: "fs_files lines_world_after pbxproj_path = Some (''Old.swift'' @ [nl] @ ''documentAI/A.swift'')"
    using neq
    by (simp add: lines_world_after_def auto_add_main_def lines_world_def copy_file_def line_lib_def
          get_files_in_project_def files_to_add_of_def example_files_def basename_def
          add_files_to_project_def write_file_def nl_def Let_def)
  have h2: "lib_load line_lib (''Old.swift'' @ [nl] @ ''documentAI/A.swift'') = Some ?project"
    by (simp add: line_lib_def nl_def)
  have h3: "\<forall>f \<in> set example_files.
              basename f \<in> get_files_in_project line_lib ?project
            \<or> f \<in> get_files_in_project line_lib ?project"
    by (simp add: example_files_def get_files_in_project_def line_lib_def)
  from auto_add_tracked_run_is_noop [OF h1 h2 h3] h1 h2 show ?thesis by simp
qed

text \<open>
  C4, counterexample to the claim as stated: the direct inserter run twice on the
  example with the same list of files. Both runs succeed, and the project file after the
  second run differs from the one after the first.
\<close>

theorem direct_inserter_second_run_inserts_again:
  "fst (add_files_to_pbxproj pbxproj_path example_files example_rnd example_world) = Returned True
   \<and> fst (add_files_to_pbxproj pbxproj_path example_files second_rnd example_world_after) = Returned True
   \<and> fs_files (snd (add_files_to_pbxproj pbxproj_path example_files second_rnd example_world_after))
         pbxproj_path
       \<noteq> fs_files example_world_after pbxproj_path"
proof -
  have after: "example_world_after = write_file pbxproj_path example_output example_world"
    by (simp add: example_world_after_def example_first_run)
  have m1: "fs_files example_world_after pbxproj_path = Some example_output"
    by (simp add: after write_file_def)
  from example_output_accepted [of example_files second_rnd] obtain out where
    out: "spliced_content example_output example_files second_rnd = Some out" by blast
  have "out \<noteq> example_output"
    using out by (rule spliced_content_changes) (simp add: example_files_def)
  moreover have "add_files_to_pbxproj pbxproj_path example_files second_rnd example_world_after
                   = (Returned True, write_file pbxproj_path out example_world_after)"
    by (simp add: add_files_to_pbxproj_def m1 out)
  ultimately show ?thesis
    using m1 by (simp add: example_first_run write_file_def)
qed


subsection \<open>C5: missing markers\<close>

text \<open>
  C5, as amended. The direct inserter returns \<^verbatim>\<open>False\<close>, and leaves the files and the
  log of writes as they were, exactly when the begin or the end marker of the build files
  is missing from the text read, or the begin or the end marker of the file references is
  missing from the text that holds the build file entries, or, in the text that holds the
  file reference entries as well, the begin or the end marker of the sources build phase
  is missing, or no \<^verbatim>\<open>files = (\<close> follows the begin marker, or no \<^verbatim>\<open>);\<close> follows
  that. The order of a begin marker and its end marker is not looked at.
\<close>

theorem fails_exactly_when_a_marker_is_missing:
  assumes "fs_files w project_file = Some content"
  shows "add_files_to_pbxproj project_file files_to_add rnd w = (Returned False, w) \<longleftrightarrow>
     (\<not> sublist begin_build_file content \<or> \<not> sublist end_build_file content
      \<or> (\<exists>content1. build_file_stage content (gen_file_refs files_to_add rnd) = Some content1
            \<and> (\<not> sublist begin_file_reference content1 \<or> \<not> sublist end_file_reference content1
               \<or> (\<exists>content2. file_ref_stage content1 (gen_file_refs files_to_add rnd) = Some content2
                     \<and> (\<not> sublist begin_sources content2 \<or> \<not> sublist end_sources content2
                        \<or> \<not> sublist files_array_open
                              (drop (nat (str_find content2 begin_sources)) content2)
                        \<or> \<not> sublist files_array_close
                              (drop (nat (str_find_from content2 files_array_open
                                            (str_find content2 begin_sources))) content2))))))"
proof -
  have "add_files_to_pbxproj project_file files_to_add rnd w = (Returned False, w)
          \<longleftrightarrow> spliced_content content files_to_add rnd = None"
    using assms by (simp add: add_files_to_pbxproj_def split: option.splits)
  then show ?thesis
    unfolding spliced_content_None_iff build_file_stage_None_iff file_ref_stage_None_iff
      sources_stage_None_iff
    by (simp only: disj_assoc)
qed

text \<open>C5, witness: an empty project file.\<close>

theorem missing_marker_witness:
  "fs_files empty_world pbxproj_path = Some []
   \<and> \<not> sublist begin_build_file []
   \<and> add_files_to_pbxproj pbxproj_path example_files example_rnd empty_world = (Returned False, empty_world)"
proof -
  have h: "fs_files empty_world pbxproj_path = Some []"
    by (simp add: empty_world_def)
  have m: "\<not> sublist begin_build_file []"
    by (simp add: begin_build_file_def)
  from fails_exactly_when_a_marker_is_missing [OF h, of example_files example_rnd] m h
  show ?thesis by blast
qed

text \<open>
  C5, counterexample to the claim as stated: in the text read the begin marker of the
  build files stands after its end marker and no end marker follows it; the run
  succeeds and changes the project file.
\<close>

theorem reversed_markers_are_accepted:
  "sublist begin_build_file reversed_manifest
   \<and> \<not> sublist end_build_file
         (drop (nat (str_find reversed_manifest begin_build_file) + length begin_build_file)
            reversed_manifest)
   \<and> fst (add_files_to_pbxproj pbxproj_path example_files example_rnd reversed_world) = Returned True
   \<and> fs_files (snd (add_files_to_pbxproj pbxproj_path example_files example_rnd reversed_world))
         pbxproj_path
       \<noteq> fs_files reversed_world pbxproj_path"
proof -
  have s: "sublist begin_build_file reversed_manifest"
    using reversed_manifest_blocks(1) by (rule block_at_sublist)
  have f: "str_find reversed_manifest begin_build_file = 31"
    by code_simp
  have "str_find (drop 63 reversed_manifest) end_build_file = - 1"
    by code_simp
  then have n: "\<not> sublist end_build_file
         (drop (nat (str_find reversed_manifest begin_build_file) + length begin_build_file)
            reversed_manifest)"
    by (simp add: f marker_lengths str_find_missing_iff)
  have m: "fs_files reversed_world pbxproj_path = Some reversed_manifest"
    by (simp add: reversed_world_def)
  from reversed_manifest_accepted [of example_files example_rnd] obtain out where
    out: "spliced_content reversed_manifest example_files example_rnd = Some out" by blast
  have "out \<noteq> reversed_manifest"
    using out by (rule spliced_content_changes) (simp add: example_files_def)
  moreover have "add_files_to_pbxproj pbxproj_path example_files example_rnd reversed_world
                   = (Returned True, write_file pbxproj_path out reversed_world)"
    by (simp add: add_files_to_pbxproj_def m out)
  ultimately show ?thesis
    using s n m by (simp add: write_file_def)
qed


subsection \<open>C6: tracked files\<close>

text \<open>
  C6, as amended. The library-backed synchronizer takes a file as untracked exactly when
  neither its base name nor its relative path is the non-empty path of a file reference
  of the project, by equality of strings; display names are not looked at. The report
  of \<^verbatim>\<open>update_xcode_project.py\<close> compares the base name only.
\<close>

theorem untracked_iff_no_path_matches:
  "(swift_file \<in> set (files_to_add_of all_swift_files (get_files_in_project lib project))
      \<longleftrightarrow> swift_file \<in> set all_swift_files
          \<and> \<not> (\<exists>obj \<in> set (lib_file_references lib project). \<exists>p.
                  fr_path obj = Some p \<and> p \<noteq> [] \<and> (p = basename swift_file \<or> p = swift_file)))
   \<and> (file_path \<in> set (new_files_of swift_files referenced)
      \<longleftrightarrow> file_path \<in> set swift_files \<and> basename file_path \<notin> referenced)"
  by (auto simp: files_to_add_of_def new_files_of_def get_files_in_project_iff)

text \<open>C6, witness: a project with one file reference and a file that it does not
  track.\<close>

theorem untracked_iff_witness:
  "''documentAI/Foo.swift'' \<in> set [''documentAI/Foo.swift'', ''Sources/Foo.swift'']
   \<and> \<not> (\<exists>obj \<in> set (lib_file_references line_lib [named_reference]). \<exists>p.
           fr_path obj = Some p \<and> p \<noteq> []
           \<and> (p = basename ''documentAI/Foo.swift'' \<or> p = ''documentAI/Foo.swift''))
   \<and> ''documentAI/Foo.swift''
       \<in> set (files_to_add_of [''documentAI/Foo.swift'', ''Sources/Foo.swift'']
                (get_files_in_project line_lib [named_reference]))"
proof -
  have h: "\<not> (\<exists>obj \<in> set (lib_file_references line_lib [named_reference]). \<exists>p.
           fr_path obj = Some p \<and> p \<noteq> []
           \<and> (p = basename ''documentAI/Foo.swift'' \<or> p = ''documentAI/Foo.swift''))"
    by (simp add: line_lib_def named_reference_def basename_def)
  from untracked_iff_no_path_matches
         [of "''documentAI/Foo.swift''" "[''documentAI/Foo.swift'', ''Sources/Foo.swift'']"
             line_lib "[named_reference]"] h
  show ?thesis by simp
qed

text \<open>
  C6, counterexample to the claim as stated: the display name of a file reference is the
  base name of the file, its path is another one, and the file is taken as untracked.
\<close>

theorem display_name_is_not_consulted:
  "spec_tracked ''documentAI/Foo.swift'' [named_reference]
   \<and> ''documentAI/Foo.swift''
       \<in> set (files_to_add_of [''documentAI/Foo.swift'']
                (get_files_in_project line_lib [named_reference]))"
  by (simp add: spec_tracked_def named_reference_def basename_def files_to_add_of_def
        get_files_in_project_def line_lib_def)


subsection \<open>C7: the path rewrite\<close>





subsection \<open>C8: where the entries go\<close>




subsection \<open>C9: the path recorded for a file\<close>




subsection \<open>C10: the report\<close>

text \<open>
  C10. The main routine of \<^verbatim>\<open>update_xcode_project.py\<close> leaves the world as it was,
  files, directories and log of writes, whatever the Swift files and the world are: it
  reads the project file and returns the list of the files to add by hand.
\<close>

theorem update_main_leaves_world_unchanged:
  "snd (snd (update_main swift_files w)) = w"
  by (simp add: update_main_def Let_def)

text \<open>C10, witness: the example world.\<close>

theorem update_main_witness:
  "snd (snd (update_main [''documentAI/A.swift''] example_world)) = example_world"
  by (rule update_main_leaves_world_unchanged)

end
